theory Spec2Isabelle
  imports Main
begin

text \<open>
  A shallow embedding of the apps router (\<open>packages/trpc/server/routers/viewer/apps.tsx\<close>:
  the procedures \<open>listLocal\<close>, \<open>toggle\<close> and \<open>saveKeys\<close>) and of \<open>getStaticProps\<close> of the
  availability page. Line numbers refer to the router unless the page is named. A
  procedure is a function from the world it runs in to its result, an error or a value,
  and the world it leaves.
\<close>

section \<open>JSON values\<close>

text \<open>
  The \<open>keys\<close> column of an app row and the \<open>metadata\<close> column of an event type are JSON
  values. An object is an association list in insertion order; a property read takes the
  first entry of that name.
\<close>

datatype json =
    JNull
  | JBool bool
  | JNum int
  | JStr string
  | JArr "json list"
  | JObj "(string \<times> json) list"

text \<open>JavaScript truthiness, as tested by \<open>if (dbData?.keys)\<close>.\<close>

fun truthy :: "json \<Rightarrow> bool" where
  "truthy JNull = False"
| "truthy (JBool b) = b"
| "truthy (JNum n) = (n \<noteq> 0)"
| "truthy (JStr s) = (s \<noteq> [])"
| "truthy (JArr xs) = True"
| "truthy (JObj kvs) = True"

text \<open>\<open>v[k]\<close> on an object; \<open>None\<close> is \<open>undefined\<close>.\<close>

fun member :: "json \<Rightarrow> string \<Rightarrow> json option" where
  "member (JObj kvs) k = map_of kvs k"
| "member v k = None"

text \<open>
  \<open>{...o, [k]: v}\<close>: the spread keeps the entries of \<open>o\<close>, and the assignment replaces
  the value of an entry named \<open>k\<close> where it stands, or adds one at the end.
\<close>

fun assign :: "string \<Rightarrow> json \<Rightarrow> (string \<times> json) list \<Rightarrow> (string \<times> json) list" where
  "assign k v [] = [(k, v)]"
| "assign k v (p # ps) = (if fst p = k then (k, v) # ps else p # assign k v ps)"

text \<open>The JSON path filter of \<open>prisma.eventType.findMany\<close>: \<open>path: [...], equals: ...\<close>.\<close>

fun json_path :: "string list \<Rightarrow> json \<Rightarrow> json option" where
  "json_path [] v = Some v"
| "json_path (k # ks) v = (case member v k of None \<Rightarrow> None | Some w \<Rightarrow> json_path ks w)"


section \<open>The store\<close>

record user_row =
  email :: string
  user_locale :: "string option"

record app_row =
  slug :: string
  categories :: "string list"
  keys :: json
  enabled :: bool

record credential_row =
  appId :: "string option"
  cred_user :: "user_row option"

record eventType_row =
  et_id :: int
  et_title :: string
  et_users :: "user_row list"
  et_metadata :: json

text \<open>
  One call of \<open>sendDisabledAppEmail({ email, appName, appType, t })\<close> (lines 140-145).
\<close>

datatype 't email_call =
  DisabledAppEmail (to_email: string) (appName: string) (appType: "string list") (translator: 't)

text \<open>
  The world a procedure runs in: the three tables it reads and writes through
  \<open>ctx.prisma\<close>, and the notification attempts made so far, oldest first.
\<close>

record 't world =
  app_table :: "app_row list"
  credential_table :: "credential_row list"
  eventType_table :: "eventType_row list"
  outbox :: "'t email_call list"

datatype trpc_code = UNAUTHORIZED

datatype error =
    TRPCError trpc_code
  | ZodError "string list"
  | TypeError
  | ReferenceError string
  | RecordNotFound
  | SendFailed

text \<open>
  \<open>prisma.app.update({ where: { slug }, data })\<close>: fails when no row has the slug,
  otherwise writes the row and returns it as written. The slug is the key of the table;
  the update is written for every row that carries it.
\<close>

definition prisma_app_update ::
  "string \<Rightarrow> (app_row \<Rightarrow> app_row) \<Rightarrow> 't world \<Rightarrow> error + (app_row \<times> 't world)" where
  "prisma_app_update s f w =
     (case find (\<lambda>r. slug r = s) (app_table w) of
        None \<Rightarrow> Inl RecordNotFound
      | Some r \<Rightarrow>
          Inr (f r, w\<lparr>app_table := map (\<lambda>r. if slug r = s then f r else r) (app_table w)\<rparr>))"

text \<open>\<open>prisma.eventType.update({ where: { id }, data: { metadata } })\<close>.\<close>

definition prisma_eventType_update :: "int \<Rightarrow> json \<Rightarrow> 't world \<Rightarrow> 't world" where
  "prisma_eventType_update i md w =
     w\<lparr>eventType_table :=
         map (\<lambda>e. if et_id e = i then e\<lparr>et_metadata := md\<rparr> else e) (eventType_table w)\<rparr>"

text \<open>Lines 40-51: \<open>prisma.app.findMany({ where: { categories: { has: category } } })\<close>.\<close>

definition prisma_app_findMany :: "string \<Rightarrow> 't world \<Rightarrow> app_row list" where
  "prisma_app_findMany category w = filter (\<lambda>r. category \<in> set (categories r)) (app_table w)"

text \<open>Lines 121-133: \<open>prisma.credential.findMany({ where: { appId } })\<close>.\<close>

definition prisma_credential_findMany :: "string \<Rightarrow> 't world \<Rightarrow> credential_row list" where
  "prisma_credential_findMany s w = filter (\<lambda>c. appId c = Some s) (credential_table w)"

text \<open>
  Lines 150-168: \<open>prisma.eventType.findMany\<close> with the filter
  \<open>metadata: { path: ["apps", slug, "enabled"], equals: true }\<close>.
\<close>

definition prisma_eventType_findMany :: "string \<Rightarrow> 't world \<Rightarrow> eventType_row list" where
  "prisma_eventType_findMany s w =
     filter (\<lambda>e. json_path [''apps'', s, ''enabled''] (et_metadata e) = Some (JBool True))
       (eventType_table w)"


section \<open>External collaborators\<close>

text \<open>
  The generated table \<open>appKeysSchemas\<close> maps a key to a zod object schema. Of a schema the
  procedures use \<open>parse\<close> (which throws a \<open>ZodError\<close> or returns the parsed value) and
  \<open>keyof()._def.values\<close> (the names of its keys).
\<close>

record keys_schema =
  parse :: "json \<Rightarrow> string list + json"
  keyof_values :: "string list"

record app_meta =
  meta_name :: string
  meta_slug :: string
  meta_logo :: string
  meta_title :: "string option"
  meta_type :: string
  meta_description :: string
  meta_variant :: string

text \<open>
  What the router imports and does not define: the bundled catalogue, the schema table,
  the key derivation, the translator factory, and whether a given notification attempt
  (numbered by the attempts made before it) is delivered or fails.
\<close>

record 't env =
  getLocalAppMetadata :: "app_meta list"
  appKeysSchemas :: "string \<Rightarrow> keys_schema option"
  deriveAppDictKeyFromType :: "string \<Rightarrow> (string \<Rightarrow> keys_schema option) \<Rightarrow> string"
  getTranslation :: "string \<Rightarrow> string \<Rightarrow> 't"
  sendDisabledAppEmail :: "nat \<Rightarrow> 't email_call \<Rightarrow> bool"

text \<open>\<open>ctx.session.user.role\<close> of an authenticated procedure.\<close>

record ctx =
  role :: string


section \<open>Promises\<close>

datatype settled = Fulfilled | Rejected error

text \<open>
  \<open>xs.map(async (x) => ...)\<close> starts one task per element, and every task runs to its
  own end whatever happens to the others. The world after all of them have settled is
  computed by running them in list order. \<open>toggle\<close> does not await the \<open>Promise.all\<close> of
  the tasks (lines 135 and 171), so it keeps that world and drops how the tasks settled.
\<close>

fun settle_all :: "('w \<Rightarrow> 'w \<times> settled) list \<Rightarrow> 'w \<Rightarrow> 'w \<times> settled list" where
  "settle_all [] w = (w, [])"
| "settle_all (task # tasks) w =
     (case task w of (w1, r) \<Rightarrow>
        (case settle_all tasks w1 of (w2, rs) \<Rightarrow> (w2, r # rs)))"


section \<open>apps.toggle\<close>

record toggle_input =
  in_slug :: string
  in_enabled :: bool

text \<open>\<open>a || b\<close> on strings that may be \<open>undefined\<close> or \<open>null\<close>.\<close>

definition or_else :: "string option \<Rightarrow> string \<Rightarrow> string" where
  "or_else a b = (case a of None \<Rightarrow> b | Some s \<Rightarrow> if s = [] then b else s)"

text \<open>Lines 136-147: the task of one credential.\<close>

definition credentialTask ::
  "'t env \<Rightarrow> app_row \<Rightarrow> app_meta option \<Rightarrow> credential_row \<Rightarrow> 't world \<Rightarrow> 't world \<times> settled" where
  "credentialTask env app appMetadata credential w =
     (let t = getTranslation env
                (or_else (case cred_user credential of None \<Rightarrow> None | Some u \<Rightarrow> user_locale u) ''en'')
                ''common''
      in case cred_user credential of
           None \<Rightarrow> (w, Fulfilled)
         | Some u \<Rightarrow>
             if email u = [] then (w, Fulfilled)
             else
               (let call = DisabledAppEmail (email u)
                             (or_else (map_option meta_name appMetadata) (slug app))
                             (categories app) t
                in (w\<lparr>outbox := outbox w @ [call]\<rparr>,
                    if sendDisabledAppEmail env (length (outbox w)) call
                    then Fulfilled else Rejected SendFailed)))"

text \<open>
  Lines 178-184: the metadata written back, with the app's \<open>enabled\<close> set to false. The
  three property reads are on objects for every row that the filter of lines 152-155
  selects; on any other shape the expression is not evaluated to a value.
\<close>

definition disabledMetadata :: "string \<Rightarrow> json \<Rightarrow> json option" where
  "disabledMetadata s md =
     (case md of
        JObj m \<Rightarrow>
          (case map_of m ''apps'' of
             Some (JObj apps) \<Rightarrow>
               (case map_of apps s of
                  Some (JObj a) \<Rightarrow>
                    Some (JObj (assign ''apps''
                            (JObj (assign s (JObj (assign ''enabled'' (JBool False) a)) apps)) m))
                | _ \<Rightarrow> None)
           | _ \<Rightarrow> None)
      | _ \<Rightarrow> None)"

text \<open>
  Lines 172-200: the task of one event type. After the awaited update, line 188 reads
  \<open>user.locale\<close>; the only binding of \<open>user\<close> is the parameter of the callback that starts
  on line 190, so the read throws and the task ends there, before lines 190-199.
\<close>

definition eventTypeTask ::
  "'t env \<Rightarrow> app_row \<Rightarrow> app_meta option \<Rightarrow> eventType_row \<Rightarrow> 't world \<Rightarrow> 't world \<times> settled" where
  "eventTypeTask env app appMetadata eventType w =
     (case disabledMetadata (slug app) (et_metadata eventType) of
        None \<Rightarrow> (w, Rejected TypeError)
      | Some md \<Rightarrow>
          (prisma_eventType_update (et_id eventType) md w, Rejected (ReferenceError ''user'')))"

definition toggle ::
  "'t env \<Rightarrow> ctx \<Rightarrow> toggle_input \<Rightarrow> 't world \<Rightarrow> (error + bool) \<times> 't world" where
  "toggle env ctx input w =
     (if role ctx \<noteq> ''ADMIN'' then (Inl (TRPCError UNAUTHORIZED), w)
      else
        case prisma_app_update (in_slug input) (\<lambda>r. r\<lparr>enabled := \<not> in_enabled input\<rparr>) w of
          Inl e \<Rightarrow> (Inl e, w)
        | Inr (app, w1) \<Rightarrow>
            (let localApps = getLocalAppMetadata env;
                 appMetadata = find (\<lambda>localApp. meta_slug localApp = slug app) localApps;
                 w2 =
                   (if in_enabled input then
                      if list_ex (\<lambda>category. category = ''calendar'' \<or> category = ''video'')
                           (categories app)
                      then
                        (let appCredentials = prisma_credential_findMany (slug app) w1
                         in fst (settle_all
                                   (map (credentialTask env app appMetadata) appCredentials) w1))
                      else
                        (let eventTypesWithApp = prisma_eventType_findMany (slug app) w1
                         in fst (settle_all
                                   (map (eventTypeTask env app appMetadata) eventTypesWithApp) w1))
                    else w1)
             in (Inr (enabled app), w2)))"


section \<open>apps.listLocal\<close>

record FilteredApp =
  fa_name :: string
  fa_slug :: string
  fa_logo :: string
  fa_title :: "string option"
  fa_type :: string
  fa_description :: string
  fa_keys :: json
  fa_enabled :: bool

text \<open>
  Lines 57-85: the record pushed for one bundled app of the requested variant. In the
  first branch \<open>dbData\<close> is a row, by the test of line 61.
\<close>

definition filteredApp :: "'t env \<Rightarrow> app_row list \<Rightarrow> app_meta \<Rightarrow> FilteredApp" where
  "filteredApp env dbApps app =
     (let dbData = find (\<lambda>dbApp. slug dbApp = meta_slug app) dbApps;
          dbEnabled = (case dbData of None \<Rightarrow> False | Some d \<Rightarrow> enabled d)
      in if (case dbData of None \<Rightarrow> False | Some d \<Rightarrow> truthy (keys d)) then
           \<lparr>fa_name = meta_name app, fa_slug = meta_slug app, fa_logo = meta_logo app,
            fa_title = meta_title app, fa_type = meta_type app,
            fa_description = meta_description app,
            fa_keys = (case dbData of None \<Rightarrow> JNull | Some d \<Rightarrow> keys d),
            fa_enabled = dbEnabled\<rparr>
         else
           (let appKey = deriveAppDictKeyFromType env (meta_type app) (appKeysSchemas env);
                keysSchema = appKeysSchemas env appKey
            in \<lparr>fa_name = meta_name app, fa_slug = meta_slug app, fa_logo = meta_logo app,
                fa_title = meta_title app, fa_type = meta_type app,
                fa_description = meta_description app,
                fa_keys = (case keysSchema of
                             None \<Rightarrow> JNull
                           | Some sch \<Rightarrow> JArr (map JStr (keyof_values sch))),
                fa_enabled = dbEnabled\<rparr>))"

text \<open>Lines 55-87: the loop over the catalogue, pushing onto \<open>filteredApps\<close>.\<close>

fun listLocal_loop ::
  "'t env \<Rightarrow> string \<Rightarrow> app_row list \<Rightarrow> app_meta list \<Rightarrow> FilteredApp list \<Rightarrow> FilteredApp list" where
  "listLocal_loop env variant dbApps [] filteredApps = filteredApps"
| "listLocal_loop env variant dbApps (app # rest) filteredApps =
     listLocal_loop env variant dbApps rest
       (if meta_variant app = variant then filteredApps @ [filteredApp env dbApps app]
        else filteredApps)"

definition listLocal :: "'t env \<Rightarrow> ctx \<Rightarrow> string \<Rightarrow> 't world \<Rightarrow> error + FilteredApp list" where
  "listLocal env ctx variant w =
     (if role ctx \<noteq> ''ADMIN'' then Inl (TRPCError UNAUTHORIZED)
      else
        (let localApps = getLocalAppMetadata env;
             dbApps = prisma_app_findMany
                        (if variant = ''conferencing'' then ''video'' else variant) w
         in Inr (listLocal_loop env variant dbApps localApps [])))"


section \<open>apps.saveKeys\<close>

record saveKeys_input =
  sk_slug :: string
  sk_type :: string
  sk_keys :: json

definition saveKeys ::
  "'t env \<Rightarrow> ctx \<Rightarrow> saveKeys_input \<Rightarrow> 't world \<Rightarrow> (error + unit) \<times> 't world" where
  "saveKeys env ctx input w =
     (if role ctx \<noteq> ''ADMIN'' then (Inl (TRPCError UNAUTHORIZED), w)
      else
        (let appKey = deriveAppDictKeyFromType env (sk_type input) (appKeysSchemas env)
         in case appKeysSchemas env appKey of
              None \<Rightarrow> (Inl TypeError, w)
            | Some keysSchema \<Rightarrow>
                (case parse keysSchema (sk_keys input) of
                   Inl issues \<Rightarrow> (Inl (ZodError issues), w)
                 | Inr parsed \<Rightarrow>
                     (case prisma_app_update (sk_slug input) (\<lambda>r. r\<lparr>keys := sk_keys input\<rparr>) w of
                        Inl e \<Rightarrow> (Inl e, w)
                      | Inr (app, w1) \<Rightarrow> (Inr (), w1)))))"


section \<open>The availability page\<close>

text \<open>
  \<open>z.object({ schedule: stringOrNumber }).safeParse(ctx.params)\<close> (lines 39-41 and 302
  of the page). The field schema \<open>stringOrNumber\<close> is imported; it is a parameter here,
  from the value of the field (\<open>None\<close> when the key is missing) to the parsed value
  (\<open>None\<close> when it does not parse).
\<close>

definition querySchema_safeParse ::
  "(json option \<Rightarrow> json option) \<Rightarrow> json option \<Rightarrow> json option" where
  "querySchema_safeParse stringOrNumber params =
     (case params of
        Some (JObj kvs) \<Rightarrow> stringOrNumber (map_of kvs ''schedule'')
      | _ \<Rightarrow> None)"

datatype static_props_result =
    NotFound
  | Props (schedule: json) (revalidate: nat)

text \<open>Lines 301-312 of the page.\<close>

definition getStaticProps ::
  "(json option \<Rightarrow> json option) \<Rightarrow> json option \<Rightarrow> static_props_result" where
  "getStaticProps stringOrNumber params =
     (case querySchema_safeParse stringOrNumber params of
        None \<Rightarrow> NotFound
      | Some data_schedule \<Rightarrow> Props data_schedule 10)"

text \<open>
  The page's default export, \<open>Availability({ schedule })\<close> (lines 142-299 of the page).
  Whatever its queries have loaded, the element it returns is the \<open>Shell\<close> that holds the
  editor \<open>Form\<close> (lines 227-294), whose submit handler updates the schedule it was given.
\<close>

datatype element = ShellWithForm (scheduleId: json)

definition Availability :: "json \<Rightarrow> element" where
  "Availability schedule_prop = ShellWithForm schedule_prop"

text \<open>
  Modelled from the spec: the step that turns the result of \<open>getStaticProps\<close> into a
  response is the framework's and is missing from the source. Section 6 of the
  specification: for the route parameter \<open>schedule\<close>, a parsing failure gives a "not found"
  response; otherwise the editor is rendered, from the props returned.
\<close>

datatype response =
    NotFoundResponse
  | Rendered element

definition buildPage :: "(json option \<Rightarrow> json option) \<Rightarrow> json option \<Rightarrow> response" where
  "buildPage stringOrNumber params =
     (case getStaticProps stringOrNumber params of
        NotFound \<Rightarrow> NotFoundResponse
      | Props schedule_prop seconds \<Rightarrow> Rendered (Availability schedule_prop))"

fun rendersForm :: "response \<Rightarrow> bool" where
  "rendersForm NotFoundResponse = False"
| "rendersForm (Rendered (ShellWithForm i)) = True"


section \<open>Example data\<close>

text \<open>
  A small installation used to instantiate the theorems below: a schema with two keys
  that, as zod object schemas do, drops unknown keys from what it parses; a catalogue of
  four bundled apps; three stored app rows; and a mailer whose first attempt fails.
\<close>

definition ex_schema :: keys_schema where
  "ex_schema =
     \<lparr>parse = (\<lambda>v. case v of
                 JObj kvs \<Rightarrow>
                   (case (map_of kvs ''client_id'', map_of kvs ''client_secret'') of
                      (Some (JStr i), Some (JStr s)) \<Rightarrow>
                        Inr (JObj [(''client_id'', JStr i), (''client_secret'', JStr s)])
                    | _ \<Rightarrow> Inl [''Required''])
               | _ \<Rightarrow> Inl [''Expected object'']),
      keyof_values = [''client_id'', ''client_secret'']\<rparr>"

definition ex_catalogue :: "app_meta list" where
  "ex_catalogue =
     [\<lparr>meta_name = ''Zoom Video'', meta_slug = ''zoom'', meta_logo = ''zoom.svg'',
       meta_title = Some ''Zoom'', meta_type = ''zoom_video'',
       meta_description = ''Video calls'', meta_variant = ''conferencing''\<rparr>,
      \<lparr>meta_name = ''Stripe'', meta_slug = ''stripe'', meta_logo = ''stripe.svg'',
       meta_title = None, meta_type = ''stripe_payment'',
       meta_description = ''Payments'', meta_variant = ''payment''\<rparr>,
      \<lparr>meta_name = ''Wipe my Cal'', meta_slug = ''wipe-my-cal'', meta_logo = ''wipe.svg'',
       meta_title = None, meta_type = ''wipemycal_other'',
       meta_description = ''Reschedule a day'', meta_variant = ''other''\<rparr>,
      \<lparr>meta_name = ''Giphy'', meta_slug = ''giphy'', meta_logo = ''giphy.svg'',
       meta_title = None, meta_type = ''giphy_other'',
       meta_description = ''GIFs'', meta_variant = ''other''\<rparr>]"

definition ex_env :: "string env" where
  "ex_env =
     \<lparr>getLocalAppMetadata = ex_catalogue,
      appKeysSchemas = [''zoomvideo'' \<mapsto> ex_schema],
      deriveAppDictKeyFromType =
        (\<lambda>appType dict. if dict appType \<noteq> None then appType
                        else filter (\<lambda>c. c \<noteq> CHR ''_'') appType),
      getTranslation = (\<lambda>lang ns. lang),
      sendDisabledAppEmail = (\<lambda>n call. n \<noteq> 0)\<rparr>"

definition admin_ctx :: ctx where
  "admin_ctx = \<lparr>role = ''ADMIN''\<rparr>"

definition user_ctx :: ctx where
  "user_ctx = \<lparr>role = ''USER''\<rparr>"

definition alice :: user_row where
  "alice = \<lparr>email = ''alice@example.com'', user_locale = Some ''fr''\<rparr>"

definition bob :: user_row where
  "bob = \<lparr>email = ''bob@example.com'', user_locale = None\<rparr>"

definition ex_world :: "string world" where
  "ex_world =
     \<lparr>app_table =
        [\<lparr>slug = ''zoom'', categories = [''video''], keys = JNull, enabled = True\<rparr>,
         \<lparr>slug = ''stripe'', categories = [''payment''],
          keys = JObj [(''public_key'', JStr ''pk_live'')], enabled = True\<rparr>,
         \<lparr>slug = ''wipe-my-cal'', categories = [''calendar''],
          keys = JObj [(''api_key'', JStr ''s3cret'')], enabled = False\<rparr>],
      credential_table =
        [\<lparr>appId = Some ''zoom'', cred_user = Some alice\<rparr>,
         \<lparr>appId = Some ''zoom'', cred_user = Some alice\<rparr>,
         \<lparr>appId = Some ''zoom'', cred_user = None\<rparr>,
         \<lparr>appId = Some ''stripe'', cred_user = Some bob\<rparr>],
      eventType_table =
        [\<lparr>et_id = 1, et_title = ''Paid call'', et_users = [bob],
          et_metadata =
            JObj [(''apps'', JObj [(''stripe'', JObj [(''enabled'', JBool True),
                                                       (''price'', JNum 100)])])]\<rparr>,
         \<lparr>et_id = 2, et_title = ''Free call'', et_users = [alice],
          et_metadata = JObj []\<rparr>],
      outbox = []\<rparr>"


definition ex_bad_keys :: saveKeys_input where
  "ex_bad_keys = \<lparr>sk_slug = ''zoom'', sk_type = ''zoom_video'',
                   sk_keys = JObj [(''client_id'', JStr ''abc'')]\<rparr>"


definition ex_extra_keys :: saveKeys_input where
  "ex_extra_keys = \<lparr>sk_slug = ''zoom'', sk_type = ''zoom_video'',
                     sk_keys = JObj [(''client_id'', JStr ''abc''),
                                     (''client_secret'', JStr ''xyz''),
                                     (''note'', JStr ''kept'')]\<rparr>"

text \<open>
  An example field schema for the route parameter, in the manner of \<open>parseInt\<close>: a number
  is taken as it is; a string is read as the number written by its leading decimal
  digits, after an optional sign, and does not parse when it has none; anything else,
  a missing field included, does not parse.
\<close>

definition digit_value :: "char \<Rightarrow> int option" where
  "digit_value c =
     map_of [(CHR ''0'', 0), (CHR ''1'', 1), (CHR ''2'', 2), (CHR ''3'', 3), (CHR ''4'', 4),
             (CHR ''5'', 5), (CHR ''6'', 6), (CHR ''7'', 7), (CHR ''8'', 8), (CHR ''9'', 9)] c"

fun leading_digits :: "string \<Rightarrow> int list" where
  "leading_digits [] = []"
| "leading_digits (c # cs) =
     (case digit_value c of None \<Rightarrow> [] | Some d \<Rightarrow> d # leading_digits cs)"

definition unsigned_prefix :: "string \<Rightarrow> int option" where
  "unsigned_prefix s =
     (case leading_digits s of
        [] \<Rightarrow> None
      | d # ds \<Rightarrow> Some (foldl (\<lambda>n k. 10 * n + k) 0 (d # ds)))"

definition ex_parseInt :: "string \<Rightarrow> int option" where
  "ex_parseInt s =
     (case s of
        [] \<Rightarrow> None
      | c # cs \<Rightarrow>
          if c = CHR ''-'' then map_option uminus (unsigned_prefix cs)
          else if c = CHR ''+'' then unsigned_prefix cs
          else unsigned_prefix (c # cs))"

definition ex_stringOrNumber :: "json option \<Rightarrow> json option" where
  "ex_stringOrNumber v =
     (case v of
        Some (JNum n) \<Rightarrow> Some (JNum n)
      | Some (JStr s) \<Rightarrow> map_option JNum (ex_parseInt s)
      | _ \<Rightarrow> None)"


section \<open>Terms of the statements\<close>

text \<open>The \<open>keys\<close> stored under a slug.\<close>

definition stored_keys :: "string \<Rightarrow> 't world \<Rightarrow> json list" where
  "stored_keys s w = map keys (filter (\<lambda>r. slug r = s) (app_table w))"

text \<open>
  The address a credential row contributes to a notification run: that of its user, when
  the row has a user and the address is not empty.
\<close>

definition credential_email :: "credential_row \<Rightarrow> string list" where
  "credential_email c =
     (case cred_user c of None \<Rightarrow> [] | Some u \<Rightarrow> if email u = [] then [] else [email u])"

definition recipients :: "string \<Rightarrow> 't world \<Rightarrow> string list" where
  "recipients s w = concat (map credential_email (prisma_credential_findMany s w))"

text \<open>
  In the words of the specification: the users with credentials for an app, each counted
  once.
\<close>

definition credentialedUsers :: "string \<Rightarrow> 't world \<Rightarrow> user_row list" where
  "credentialedUsers s w =
     remdups (concat (map (\<lambda>c. case cred_user c of None \<Rightarrow> [] | Some u \<Rightarrow> [u])
                        (prisma_credential_findMany s w)))"


text \<open>
  What \<open>listLocal\<close> emits as \<open>keys\<close> when it does not emit stored keys: the key names of
  the schema found under the key derived from the app's type, or \<open>null\<close> without a schema.
\<close>

definition schema_key_names :: "'t env \<Rightarrow> app_meta \<Rightarrow> json" where
  "schema_key_names env app =
     (case appKeysSchemas env (deriveAppDictKeyFromType env (meta_type app) (appKeysSchemas env)) of
        None \<Rightarrow> JNull
      | Some sch \<Rightarrow> JArr (map JStr (keyof_values sch)))"


section \<open>Tasks and the tables they leave alone\<close>

lemma fst_settle_all_Cons:
  "fst (settle_all (t # ts) w) = fst (settle_all ts (fst (t w)))"
  by (simp split: prod.splits)

lemma settle_all_preserves:
  assumes "\<And>t w. t \<in> set tasks \<Longrightarrow> g (fst (t w)) = g w"
  shows "g (fst (settle_all tasks w)) = g w"
  using assms
proof (induction tasks arbitrary: w)
  case Nil
  then show ?case by simp
next
  case (Cons task tasks)
  have step: "g (fst (task w)) = g w" using Cons.prems by simp
  have rest: "g (fst (settle_all tasks (fst (task w)))) = g (fst (task w))"
    using Cons.IH Cons.prems by simp
  show ?case using step rest by (simp only: fst_settle_all_Cons)
qed

lemma credentialTask_app_table [simp]:
  "app_table (fst (credentialTask env app md c w)) = app_table w"
  by (simp add: credentialTask_def Let_def split: option.splits)

lemma credentialTask_eventType_table [simp]:
  "eventType_table (fst (credentialTask env app md c w)) = eventType_table w"
  by (simp add: credentialTask_def Let_def split: option.splits)

lemma credentialTask_credential_table [simp]:
  "credential_table (fst (credentialTask env app md c w)) = credential_table w"
  by (simp add: credentialTask_def Let_def split: option.splits)

lemma eventTypeTask_app_table [simp]:
  "app_table (fst (eventTypeTask env app md e w)) = app_table w"
  by (simp add: eventTypeTask_def prisma_eventType_update_def split: option.splits)

lemma eventTypeTask_credential_table [simp]:
  "credential_table (fst (eventTypeTask env app md e w)) = credential_table w"
  by (simp add: eventTypeTask_def prisma_eventType_update_def split: option.splits)

lemma eventTypeTask_outbox [simp]:
  "outbox (fst (eventTypeTask env app md e w)) = outbox w"
  by (simp add: eventTypeTask_def prisma_eventType_update_def split: option.splits)

lemma credential_tasks_app_table [simp]:
  "app_table (fst (settle_all (map (credentialTask env app md) cs) w)) = app_table w"
  by (rule settle_all_preserves) auto

lemma credential_tasks_eventType_table [simp]:
  "eventType_table (fst (settle_all (map (credentialTask env app md) cs) w)) = eventType_table w"
  by (rule settle_all_preserves) auto

lemma credential_tasks_credential_table [simp]:
  "credential_table (fst (settle_all (map (credentialTask env app md) cs) w)) = credential_table w"
  by (rule settle_all_preserves) auto

lemma eventType_tasks_app_table [simp]:
  "app_table (fst (settle_all (map (eventTypeTask env app md) es) w)) = app_table w"
  by (rule settle_all_preserves) auto

lemma eventType_tasks_credential_table [simp]:
  "credential_table (fst (settle_all (map (eventTypeTask env app md) es) w)) = credential_table w"
  by (rule settle_all_preserves) auto

lemma eventType_tasks_outbox [simp]:
  "outbox (fst (settle_all (map (eventTypeTask env app md) es) w)) = outbox w"
  by (rule settle_all_preserves) auto

lemma toggle_app_table:
  assumes "role ctx = ''ADMIN''"
    and "find (\<lambda>r. slug r = in_slug input) (app_table w) = Some r0"
  shows "app_table (snd (toggle env ctx input w)) =
           map (\<lambda>r. if slug r = in_slug input then r\<lparr>enabled := \<not> in_enabled input\<rparr> else r)
             (app_table w)"
    and "fst (toggle env ctx input w) = Inr (\<not> in_enabled input)"
  using assms by (simp_all add: toggle_def prisma_app_update_def Let_def)


section \<open>apps.toggle: the negation contract\<close>

text \<open>
  C1. When an admin calls \<open>toggle\<close> with \<open>{slug, enabled}\<close> and a row with that slug is
  stored, the procedure returns \<open>!input.enabled\<close>, a row with that slug is still stored, and
  every stored row with that slug has its \<open>enabled\<close> flag equal to \<open>!input.enabled\<close>,
  whatever the flag was before the call.
\<close>

theorem toggle_stores_negation:
  assumes "role ctx = ''ADMIN''"
    and "\<exists>r \<in> set (app_table w). slug r = in_slug input"
  shows "fst (toggle env ctx input w) = Inr (\<not> in_enabled input)
       \<and> (\<exists>r \<in> set (app_table (snd (toggle env ctx input w))). slug r = in_slug input)
       \<and> (\<forall>r \<in> set (app_table (snd (toggle env ctx input w))).
            slug r = in_slug input \<longrightarrow> enabled r = (\<not> in_enabled input))"
proof -
  from assms(2) obtain r0 where r0: "find (\<lambda>r. slug r = in_slug input) (app_table w) = Some r0"
    by (cases "find (\<lambda>r. slug r = in_slug input) (app_table w)") (auto simp: find_None_iff)
  note t = toggle_app_table [OF assms(1) r0]
  from assms(2) obtain r where r: "r \<in> set (app_table w)" "slug r = in_slug input" by blast
  have "r\<lparr>enabled := \<not> in_enabled input\<rparr> \<in> set (app_table (snd (toggle env ctx input w)))"
    using r by (auto simp: t(1) intro!: image_eqI [where x = r])
  moreover have "slug (r\<lparr>enabled := \<not> in_enabled input\<rparr>) = in_slug input"
    using r by simp
  ultimately have ex: "\<exists>r \<in> set (app_table (snd (toggle env ctx input w))). slug r = in_slug input"
    by blast
  have all: "\<forall>r \<in> set (app_table (snd (toggle env ctx input w))).
            slug r = in_slug input \<longrightarrow> enabled r = (\<not> in_enabled input)"
    by (auto simp: t(1))
  show ?thesis using t(2) ex all by blast
qed

theorem toggle_stores_negation_witness:
  "role admin_ctx = ''ADMIN''
   \<and> (\<exists>r \<in> set (app_table ex_world). slug r = ''zoom'')
   \<and> fst (toggle ex_env admin_ctx \<lparr>in_slug = ''zoom'', in_enabled = False\<rparr> ex_world) = Inr True
   \<and> map enabled
         (app_table (snd (toggle ex_env admin_ctx \<lparr>in_slug = ''zoom'', in_enabled = False\<rparr> ex_world)))
       = [True, True, False]"
proof -
  have a: "role admin_ctx = ''ADMIN''" by (simp add: admin_ctx_def)
  have b: "\<exists>r \<in> set (app_table ex_world).
             slug r = in_slug \<lparr>in_slug = ''zoom'', in_enabled = False\<rparr>"
    by (simp add: ex_world_def)
  from toggle_stores_negation [OF a b, of ex_env] a b
  show ?thesis
    by (simp add: toggle_def prisma_app_update_def ex_world_def admin_ctx_def)
qed


lemma find_None_map_id:
  "find P xs = None \<Longrightarrow> map (\<lambda>r. if P r then f r else r) xs = xs"
  by (induction xs) (auto split: if_splits)


section \<open>apps.toggle: enabling an app\<close>

text \<open>
  C8. When an admin calls \<open>toggle\<close> with \<open>input.enabled = false\<close>, no notification is
  attempted, the event types and the credentials are left as they were, and the app table
  changes only in the \<open>enabled\<close> flag of the rows with the given slug, which becomes true.
\<close>

theorem toggle_enable_frame:
  assumes "role ctx = ''ADMIN''" and "\<not> in_enabled input"
  shows "outbox (snd (toggle env ctx input w)) = outbox w
       \<and> eventType_table (snd (toggle env ctx input w)) = eventType_table w
       \<and> credential_table (snd (toggle env ctx input w)) = credential_table w
       \<and> app_table (snd (toggle env ctx input w)) =
           map (\<lambda>r. if slug r = in_slug input then r\<lparr>enabled := True\<rparr> else r) (app_table w)"
proof (cases "find (\<lambda>r. slug r = in_slug input) (app_table w)")
  case None
  then have same: "snd (toggle env ctx input w) = w"
    using assms by (simp add: toggle_def prisma_app_update_def)
  show ?thesis using find_None_map_id [OF None] by (simp add: same)
next
  case (Some r0)
  then show ?thesis
    using assms by (simp add: toggle_def prisma_app_update_def Let_def)
qed

theorem toggle_enable_frame_witness:
  "role admin_ctx = ''ADMIN''
   \<and> \<not> in_enabled \<lparr>in_slug = ''wipe-my-cal'', in_enabled = False\<rparr>
   \<and> snd (toggle ex_env admin_ctx \<lparr>in_slug = ''wipe-my-cal'', in_enabled = False\<rparr> ex_world)
       = ex_world\<lparr>app_table :=
           [\<lparr>slug = ''zoom'', categories = [''video''], keys = JNull, enabled = True\<rparr>,
            \<lparr>slug = ''stripe'', categories = [''payment''],
             keys = JObj [(''public_key'', JStr ''pk_live'')], enabled = True\<rparr>,
            \<lparr>slug = ''wipe-my-cal'', categories = [''calendar''],
             keys = JObj [(''api_key'', JStr ''s3cret'')], enabled = True\<rparr>]\<rparr>"
proof -
  have a: "role admin_ctx = ''ADMIN''" by (simp add: admin_ctx_def)
  have b: "\<not> in_enabled \<lparr>in_slug = ''wipe-my-cal'', in_enabled = False\<rparr>" by simp
  from toggle_enable_frame [OF a b, of ex_env ex_world] a
  show ?thesis by (simp add: ex_world_def)
qed


section \<open>Authorization\<close>

text \<open>
  C5. When the role of the session's user is not \<open>ADMIN\<close>, each of \<open>listLocal\<close>,
  \<open>toggle\<close> and \<open>saveKeys\<close> fails with the \<open>UNAUTHORIZED\<close> error, and the two mutations
  leave the whole world (tables and outbox) as it was; \<open>listLocal\<close> only reads.
\<close>

theorem non_admin_unauthorized:
  assumes "role ctx \<noteq> ''ADMIN''"
  shows "listLocal env ctx variant w = Inl (TRPCError UNAUTHORIZED)
       \<and> toggle env ctx tin w = (Inl (TRPCError UNAUTHORIZED), w)
       \<and> saveKeys env ctx sin w = (Inl (TRPCError UNAUTHORIZED), w)"
  using assms by (simp add: listLocal_def toggle_def saveKeys_def)

theorem non_admin_unauthorized_witness:
  "role user_ctx \<noteq> ''ADMIN''
   \<and> listLocal ex_env user_ctx ''payment'' ex_world = Inl (TRPCError UNAUTHORIZED)
   \<and> toggle ex_env user_ctx \<lparr>in_slug = ''stripe'', in_enabled = True\<rparr> ex_world
       = (Inl (TRPCError UNAUTHORIZED), ex_world)
   \<and> saveKeys ex_env user_ctx
        \<lparr>sk_slug = ''zoom'', sk_type = ''zoom_video'', sk_keys = JObj []\<rparr> ex_world
       = (Inl (TRPCError UNAUTHORIZED), ex_world)"
proof -
  have a: "role user_ctx \<noteq> ''ADMIN''" by (simp add: user_ctx_def)
  from non_admin_unauthorized [OF a] a show ?thesis by simp
qed


section \<open>apps.saveKeys: validation and the write\<close>

text \<open>
  C4. When an admin calls \<open>saveKeys\<close>, a schema is found under the key derived from
  \<open>input.type\<close>, and \<open>input.keys\<close> fails that schema, the procedure fails with the
  \<open>ZodError\<close> carrying the schema's issues.
\<close>

theorem saveKeys_invalid_keys_error:
  assumes "role ctx = ''ADMIN''"
    and "appKeysSchemas env (deriveAppDictKeyFromType env (sk_type input) (appKeysSchemas env))
           = Some keysSchema"
    and "parse keysSchema (sk_keys input) = Inl issues"
  shows "fst (saveKeys env ctx input w) = Inl (ZodError issues)"
  using assms by (simp add: saveKeys_def)

theorem saveKeys_invalid_keys_error_witness:
  "role admin_ctx = ''ADMIN''
   \<and> appKeysSchemas ex_env
        (deriveAppDictKeyFromType ex_env (sk_type ex_bad_keys) (appKeysSchemas ex_env))
       = Some ex_schema
   \<and> parse ex_schema (sk_keys ex_bad_keys) = Inl [''Required'']
   \<and> fst (saveKeys ex_env admin_ctx ex_bad_keys ex_world) = Inl (ZodError [''Required''])"
proof -
  have a: "role admin_ctx = ''ADMIN''" by (simp add: admin_ctx_def)
  have b: "appKeysSchemas ex_env
             (deriveAppDictKeyFromType ex_env (sk_type ex_bad_keys) (appKeysSchemas ex_env))
           = Some ex_schema"
    by (simp add: ex_env_def ex_bad_keys_def)
  have c: "parse ex_schema (sk_keys ex_bad_keys) = Inl [''Required'']"
    by (simp add: ex_schema_def ex_bad_keys_def)
  from saveKeys_invalid_keys_error [OF a b c] a b c show ?thesis by simp
qed


text \<open>
  C3, as the code has it. When an admin calls \<open>saveKeys\<close> and a schema is found under the
  key derived from \<open>input.type\<close>: if \<open>input.keys\<close> passes the schema and a row with the
  slug is stored, the procedure succeeds and the row's \<open>keys\<close> become \<open>input.keys\<close> exactly
  as supplied, whatever value the schema parsed them to; if \<open>input.keys\<close> fails the schema,
  the procedure fails with the validation error and writes nothing.
\<close>

theorem saveKeys_writes_input_after_validation:
  assumes "role ctx = ''ADMIN''"
    and "appKeysSchemas env (deriveAppDictKeyFromType env (sk_type input) (appKeysSchemas env))
           = Some keysSchema"
  shows "(\<forall>parsed. parse keysSchema (sk_keys input) = Inr parsed
            \<longrightarrow> (\<exists>r \<in> set (app_table w). slug r = sk_slug input)
            \<longrightarrow> saveKeys env ctx input w =
                  (Inr (), w\<lparr>app_table :=
                              map (\<lambda>r. if slug r = sk_slug input then r\<lparr>keys := sk_keys input\<rparr>
                                       else r) (app_table w)\<rparr>))
       \<and> (\<forall>issues. parse keysSchema (sk_keys input) = Inl issues
            \<longrightarrow> saveKeys env ctx input w = (Inl (ZodError issues), w))"
proof (intro conjI allI impI)
  fix parsed
  assume p: "parse keysSchema (sk_keys input) = Inr parsed"
    and ex: "\<exists>r \<in> set (app_table w). slug r = sk_slug input"
  from ex obtain r0 where "find (\<lambda>r. slug r = sk_slug input) (app_table w) = Some r0"
    by (cases "find (\<lambda>r. slug r = sk_slug input) (app_table w)") (auto simp: find_None_iff)
  then show "saveKeys env ctx input w =
               (Inr (), w\<lparr>app_table :=
                           map (\<lambda>r. if slug r = sk_slug input then r\<lparr>keys := sk_keys input\<rparr>
                                    else r) (app_table w)\<rparr>)"
    using assms p by (simp add: saveKeys_def prisma_app_update_def)
next
  fix issues
  assume "parse keysSchema (sk_keys input) = Inl issues"
  then show "saveKeys env ctx input w = (Inl (ZodError issues), w)"
    using assms by (simp add: saveKeys_def)
qed

lemma ex_env_zoom_schema:
  "appKeysSchemas ex_env (deriveAppDictKeyFromType ex_env ''zoom_video'' (appKeysSchemas ex_env))
     = Some ex_schema"
  by (simp add: ex_env_def)

theorem saveKeys_writes_input_after_validation_witness:
  "role admin_ctx = ''ADMIN''
   \<and> appKeysSchemas ex_env
        (deriveAppDictKeyFromType ex_env (sk_type ex_extra_keys) (appKeysSchemas ex_env))
       = Some ex_schema
   \<and> parse ex_schema (sk_keys ex_extra_keys)
       = Inr (JObj [(''client_id'', JStr ''abc''), (''client_secret'', JStr ''xyz'')])
   \<and> (\<exists>r \<in> set (app_table ex_world). slug r = sk_slug ex_extra_keys)
   \<and> fst (saveKeys ex_env admin_ctx ex_extra_keys ex_world) = Inr ()
   \<and> stored_keys ''zoom'' (snd (saveKeys ex_env admin_ctx ex_extra_keys ex_world))
       = [JObj [(''client_id'', JStr ''abc''), (''client_secret'', JStr ''xyz''),
                (''note'', JStr ''kept'')]]
   \<and> parse ex_schema (sk_keys ex_bad_keys) = Inl [''Required'']
   \<and> saveKeys ex_env admin_ctx ex_bad_keys ex_world = (Inl (ZodError [''Required'']), ex_world)"
proof -
  have a: "role admin_ctx = ''ADMIN''" by (simp add: admin_ctx_def)
  have b: "appKeysSchemas ex_env
             (deriveAppDictKeyFromType ex_env (sk_type ex_extra_keys) (appKeysSchemas ex_env))
           = Some ex_schema"
    by (simp add: ex_extra_keys_def ex_env_zoom_schema)
  have b': "appKeysSchemas ex_env
             (deriveAppDictKeyFromType ex_env (sk_type ex_bad_keys) (appKeysSchemas ex_env))
           = Some ex_schema"
    by (simp add: ex_bad_keys_def ex_env_zoom_schema)
  have c: "parse ex_schema (sk_keys ex_extra_keys)
             = Inr (JObj [(''client_id'', JStr ''abc''), (''client_secret'', JStr ''xyz'')])"
    by (simp add: ex_schema_def ex_extra_keys_def)
  have d: "\<exists>r \<in> set (app_table ex_world). slug r = sk_slug ex_extra_keys"
    by (simp add: ex_world_def ex_extra_keys_def)
  have e: "parse ex_schema (sk_keys ex_bad_keys) = Inl [''Required'']"
    by (simp add: ex_schema_def ex_bad_keys_def)
  have good: "saveKeys ex_env admin_ctx ex_extra_keys ex_world =
                (Inr (), ex_world\<lparr>app_table :=
                   map (\<lambda>r. if slug r = sk_slug ex_extra_keys
                            then r\<lparr>keys := sk_keys ex_extra_keys\<rparr> else r)
                     (app_table ex_world)\<rparr>)"
    using saveKeys_writes_input_after_validation [OF a b, of ex_world] c d by blast
  have bad: "saveKeys ex_env admin_ctx ex_bad_keys ex_world = (Inl (ZodError [''Required'']), ex_world)"
    using saveKeys_writes_input_after_validation [OF a b', of ex_world] e by blast
  have stored: "stored_keys ''zoom'' (snd (saveKeys ex_env admin_ctx ex_extra_keys ex_world))
       = [JObj [(''client_id'', JStr ''abc''), (''client_secret'', JStr ''xyz''),
                (''note'', JStr ''kept'')]]"
    unfolding good by (simp add: stored_keys_def ex_world_def ex_extra_keys_def)
  show ?thesis using a b c d e bad stored by (simp add: good)
qed

text \<open>
  The write is not performed when validation fails: for keys that miss \<open>client_secret\<close>
  the stored keys of the app stay \<open>null\<close> and do not become the keys supplied.
\<close>

theorem saveKeys_invalid_keys_not_written:
  "parse ex_schema (sk_keys ex_bad_keys) = Inl [''Required'']
   \<and> sk_keys ex_bad_keys = JObj [(''client_id'', JStr ''abc'')]
   \<and> stored_keys ''zoom'' ex_world = [JNull]
   \<and> stored_keys ''zoom'' (snd (saveKeys ex_env admin_ctx ex_bad_keys ex_world)) = [JNull]
   \<and> stored_keys ''zoom'' (snd (saveKeys ex_env admin_ctx ex_bad_keys ex_world))
       \<noteq> [sk_keys ex_bad_keys]"
  by (simp add: saveKeys_def ex_env_zoom_schema ex_bad_keys_def ex_schema_def admin_ctx_def
      stored_keys_def ex_world_def)


section \<open>The availability page: invalid route parameters\<close>

lemma querySchema_safeParse_None_iff:
  "querySchema_safeParse stringOrNumber params = None \<longleftrightarrow>
     (\<forall>kvs. params = Some (JObj kvs) \<longrightarrow> stringOrNumber (map_of kvs ''schedule'') = None)"
  by (auto simp: querySchema_safeParse_def split: option.splits json.splits)

lemma rendersForm_buildPage_iff:
  "rendersForm (buildPage stringOrNumber params) \<longleftrightarrow>
     querySchema_safeParse stringOrNumber params \<noteq> None"
  by (cases "querySchema_safeParse stringOrNumber params")
     (simp_all add: buildPage_def getStaticProps_def Availability_def)

text \<open>
  C9. Whenever the route parameters fail to parse (they are missing, or are not an
  object, or the \<open>schedule\<close> field, which may be missing, is not accepted by the
  string-or-number schema), the query schema fails on them, \<open>getStaticProps\<close> returns the
  not-found result, the response built from it is the "not found" response, and the
  editor form is not rendered.
\<close>

theorem invalid_route_params_not_found:
  assumes "\<forall>kvs. params = Some (JObj kvs) \<longrightarrow> stringOrNumber (map_of kvs ''schedule'') = None"
  shows "querySchema_safeParse stringOrNumber params = None
       \<and> getStaticProps stringOrNumber params = NotFound
       \<and> buildPage stringOrNumber params = NotFoundResponse
       \<and> \<not> rendersForm (buildPage stringOrNumber params)"
proof -
  have fails: "querySchema_safeParse stringOrNumber params = None"
    using assms by (simp only: querySchema_safeParse_None_iff)
  have nf: "getStaticProps stringOrNumber params = NotFound"
    by (simp add: getStaticProps_def fails)
  have resp: "buildPage stringOrNumber params = NotFoundResponse"
    by (simp add: buildPage_def nf)
  show ?thesis using fails nf resp by simp
qed

text \<open>
  The route \<open>/availability/abc\<close> and a request without route parameters are not found,
  while \<open>/availability/12\<close> renders the form for schedule 12.
\<close>

theorem invalid_route_params_not_found_witness:
  "ex_stringOrNumber (map_of [(''schedule'', JStr ''abc'')] ''schedule'') = None
   \<and> getStaticProps ex_stringOrNumber (Some (JObj [(''schedule'', JStr ''abc'')])) = NotFound
   \<and> buildPage ex_stringOrNumber (Some (JObj [(''schedule'', JStr ''abc'')])) = NotFoundResponse
   \<and> \<not> rendersForm (buildPage ex_stringOrNumber (Some (JObj [(''schedule'', JStr ''abc'')])))
   \<and> buildPage ex_stringOrNumber None = NotFoundResponse
   \<and> getStaticProps ex_stringOrNumber (Some (JObj [(''schedule'', JStr ''12'')])) = Props (JNum 12) 10
   \<and> buildPage ex_stringOrNumber (Some (JObj [(''schedule'', JStr ''12'')]))
       = Rendered (ShellWithForm (JNum 12))
   \<and> rendersForm (buildPage ex_stringOrNumber (Some (JObj [(''schedule'', JStr ''12'')])))"
proof -
  have a: "ex_stringOrNumber (map_of [(''schedule'', JStr ''abc'')] ''schedule'') = None"
    by (simp add: ex_stringOrNumber_def ex_parseInt_def unsigned_prefix_def digit_value_def)
  have h: "\<forall>kvs. Some (JObj [(''schedule'', JStr ''abc'')]) = Some (JObj kvs)
             \<longrightarrow> ex_stringOrNumber (map_of kvs ''schedule'') = None"
    using a by auto
  have h': "\<forall>kvs. (None :: json option) = Some (JObj kvs)
             \<longrightarrow> ex_stringOrNumber (map_of kvs ''schedule'') = None"
    by simp
  have ok: "getStaticProps ex_stringOrNumber (Some (JObj [(''schedule'', JStr ''12'')]))
              = Props (JNum 12) 10"
    by (simp add: getStaticProps_def querySchema_safeParse_def ex_stringOrNumber_def
        ex_parseInt_def unsigned_prefix_def digit_value_def)
  have page: "buildPage ex_stringOrNumber (Some (JObj [(''schedule'', JStr ''12'')]))
                = Rendered (ShellWithForm (JNum 12))"
    by (simp add: buildPage_def ok Availability_def)
  from invalid_route_params_not_found [OF h] invalid_route_params_not_found [OF h'] a ok page
  show ?thesis by simp
qed


section \<open>apps.toggle: disabling a calendar or video app\<close>

lemma credentialTask_outbox:
  "\<exists>calls. outbox (fst (credentialTask env app md c w)) = outbox w @ calls
          \<and> map to_email calls = credential_email c"
  by (simp add: credentialTask_def credential_email_def Let_def split: option.splits)

lemma credential_tasks_outbox:
  "\<exists>calls. outbox (fst (settle_all (map (credentialTask env app md) cs) w)) = outbox w @ calls
          \<and> map to_email calls = concat (map credential_email cs)"
proof (induction cs arbitrary: w)
  case Nil
  then show ?case by simp
next
  case (Cons c cs)
  obtain first where first:
    "outbox (fst (credentialTask env app md c w)) = outbox w @ first"
    "map to_email first = credential_email c"
    using credentialTask_outbox by blast
  obtain rest where rest:
    "outbox (fst (settle_all (map (credentialTask env app md) cs)
                   (fst (credentialTask env app md c w))))
       = outbox (fst (credentialTask env app md c w)) @ rest"
    "map to_email rest = concat (map credential_email cs)"
    using Cons.IH by blast
  have "outbox (fst (settle_all (map (credentialTask env app md) (c # cs)) w))
          = outbox w @ (first @ rest)"
    using first(1) rest(1) by (simp add: fst_settle_all_Cons del: settle_all.simps)
  moreover have "map to_email (first @ rest) = concat (map credential_email (c # cs))"
    using first(2) rest(2) by simp
  ultimately show ?case by blast
qed

lemma credentialTask_send_irrelevant:
  "fst (credentialTask (env\<lparr>sendDisabledAppEmail := send\<rparr>) app md c w)
     = fst (credentialTask env app md c w)"
  by (simp add: credentialTask_def Let_def split: option.splits)

lemma eventTypeTask_send_irrelevant:
  "eventTypeTask (env\<lparr>sendDisabledAppEmail := send\<rparr>) app md e w = eventTypeTask env app md e w"
  by (simp add: eventTypeTask_def)

lemma settle_all_cong_fst:
  assumes "\<And>x w. fst (f x w) = fst (g x w)"
  shows "fst (settle_all (map f xs) w) = fst (settle_all (map g xs) w)"
proof (induction xs arbitrary: w)
  case Nil
  then show ?case by simp
next
  case (Cons x xs)
  show ?case using assms Cons.IH by (simp add: fst_settle_all_Cons del: settle_all.simps)
qed

lemma toggle_send_irrelevant:
  "toggle (env\<lparr>sendDisabledAppEmail := send\<rparr>) ctx input w = toggle env ctx input w"
proof -
  have c: "\<And>app md cs w1.
      fst (settle_all (map (credentialTask (env\<lparr>sendDisabledAppEmail := send\<rparr>) app md) cs) w1)
        = fst (settle_all (map (credentialTask env app md) cs) w1)"
    by (rule settle_all_cong_fst) (rule credentialTask_send_irrelevant)
  have e: "\<And>app md. eventTypeTask (env\<lparr>sendDisabledAppEmail := send\<rparr>) app md = eventTypeTask env app md"
    by (intro ext) (rule eventTypeTask_send_irrelevant)
  show ?thesis
    by (simp add: toggle_def Let_def c e split: sum.splits prod.splits)
qed

text \<open>
  C6, as the code has it. When an admin calls \<open>toggle\<close> with \<open>input.enabled = true\<close> on
  a stored app whose categories include calendar or video, the procedure returns the new
  flag \<open>false\<close>; the notification attempts it adds to the outbox are, in order, one for each
  credential row of the app that has a user with a non-empty address (so a user with two
  credentials is notified twice, and a credential without a user not at all); and the
  result and the final world are the same whichever of the sends fail.
\<close>

theorem toggle_calendar_video_notifies:
  assumes "role ctx = ''ADMIN''"
    and "in_enabled input"
    and "find (\<lambda>r. slug r = in_slug input) (app_table w) = Some r"
    and "list_ex (\<lambda>category. category = ''calendar'' \<or> category = ''video'') (categories r)"
  shows "fst (toggle env ctx input w) = Inr False
       \<and> (\<exists>calls. outbox (snd (toggle env ctx input w)) = outbox w @ calls
                 \<and> map to_email calls = recipients (in_slug input) w)
       \<and> (\<forall>send. toggle (env\<lparr>sendDisabledAppEmail := send\<rparr>) ctx input w
                   = toggle env ctx input w)"
proof -
  have s: "slug r = in_slug input"
    using assms(3) by (auto simp: find_Some_iff)
  have ret: "fst (toggle env ctx input w) = Inr False"
    using toggle_app_table(2) [OF assms(1) assms(3)] assms(2) by simp
  let ?app = "r\<lparr>enabled := False\<rparr>"
  let ?w1 = "w\<lparr>app_table := map (\<lambda>r. if slug r = in_slug input then r\<lparr>enabled := False\<rparr> else r)
                               (app_table w)\<rparr>"
  let ?md = "find (\<lambda>localApp. meta_slug localApp = in_slug input) (getLocalAppMetadata env)"
  have w': "snd (toggle env ctx input w) =
              fst (settle_all (map (credentialTask env ?app ?md)
                                 (prisma_credential_findMany (in_slug input) ?w1)) ?w1)"
    using assms s by (simp add: toggle_def prisma_app_update_def Let_def)
  have q: "prisma_credential_findMany (in_slug input) ?w1 = prisma_credential_findMany (in_slug input) w"
    by (simp add: prisma_credential_findMany_def)
  obtain calls where calls:
    "outbox (snd (toggle env ctx input w)) = outbox ?w1 @ calls"
    "map to_email calls = concat (map credential_email (prisma_credential_findMany (in_slug input) w))"
    using credential_tasks_outbox [of env ?app ?md "prisma_credential_findMany (in_slug input) ?w1" ?w1]
    unfolding w' q by blast
  have "outbox (snd (toggle env ctx input w)) = outbox w @ calls
          \<and> map to_email calls = recipients (in_slug input) w"
    using calls by (simp add: recipients_def)
  then show ?thesis using ret toggle_send_irrelevant by blast
qed

theorem toggle_calendar_video_notifies_witness:
  "role admin_ctx = ''ADMIN''
   \<and> in_enabled \<lparr>in_slug = ''zoom'', in_enabled = True\<rparr>
   \<and> find (\<lambda>r. slug r = ''zoom'') (app_table ex_world)
       = Some \<lparr>slug = ''zoom'', categories = [''video''], keys = JNull, enabled = True\<rparr>
   \<and> fst (toggle ex_env admin_ctx \<lparr>in_slug = ''zoom'', in_enabled = True\<rparr> ex_world) = Inr False
   \<and> map to_email (outbox (snd (toggle ex_env admin_ctx \<lparr>in_slug = ''zoom'', in_enabled = True\<rparr> ex_world)))
       = [''alice@example.com'', ''alice@example.com'']
   \<and> toggle (ex_env\<lparr>sendDisabledAppEmail := (\<lambda>n call. False)\<rparr>) admin_ctx
        \<lparr>in_slug = ''zoom'', in_enabled = True\<rparr> ex_world
       = toggle ex_env admin_ctx \<lparr>in_slug = ''zoom'', in_enabled = True\<rparr> ex_world"
proof -
  let ?input = "\<lparr>in_slug = ''zoom'', in_enabled = True\<rparr>"
  let ?r = "\<lparr>slug = ''zoom'', categories = [''video''], keys = JNull, enabled = True\<rparr>"
  have a: "role admin_ctx = ''ADMIN''" by (simp add: admin_ctx_def)
  have b: "in_enabled ?input" by simp
  have c: "find (\<lambda>r. slug r = in_slug ?input) (app_table ex_world) = Some ?r"
    by (simp add: ex_world_def)
  have d: "list_ex (\<lambda>category. category = ''calendar'' \<or> category = ''video'') (categories ?r)"
    by simp
  have rec: "recipients ''zoom'' ex_world = [''alice@example.com'', ''alice@example.com'']"
    by (simp add: recipients_def prisma_credential_findMany_def credential_email_def
        ex_world_def alice_def)
  have ob: "outbox ex_world = []" by (simp add: ex_world_def)
  from toggle_calendar_video_notifies [OF a b c d, of ex_env] a b c rec ob
  show ?thesis by auto
qed

text \<open>
  The number of attempts is neither the number of users with credentials for the app nor
  the number of its credential rows: Zoom has three credential rows, two of them of the
  same user and one without a user, and disabling it triggers two attempts.
\<close>

theorem toggle_calendar_video_attempts_counterexample:
  "length (credentialedUsers ''zoom'' ex_world) = 1
   \<and> length (prisma_credential_findMany ''zoom'' ex_world) = 3
   \<and> length (outbox ex_world) = 0
   \<and> length (outbox (snd (toggle ex_env admin_ctx \<lparr>in_slug = ''zoom'', in_enabled = True\<rparr> ex_world))) = 2"
  by (simp add: credentialedUsers_def prisma_credential_findMany_def toggle_def prisma_app_update_def
      credentialTask_def or_else_def Let_def ex_world_def ex_env_def ex_catalogue_def admin_ctx_def alice_def)

text \<open>
  In that run the first send fails; the tasks of the other two credentials still settle
  normally.
\<close>

lemma ex_calendar_tasks_settle_independently:
  "snd (settle_all
         (map (credentialTask ex_env
                 \<lparr>slug = ''zoom'', categories = [''video''], keys = JNull, enabled = False\<rparr> None)
            (prisma_credential_findMany ''zoom'' ex_world)) ex_world)
     = [Rejected SendFailed, Fulfilled, Fulfilled]"
  by (simp add: prisma_credential_findMany_def 
      credentialTask_def or_else_def Let_def ex_world_def ex_env_def alice_def)


section \<open>apps.toggle: disabling any other app\<close>

lemma map_of_assign_same [simp]: "map_of (assign k v ps) k = Some v"
  by (induction ps) auto

lemma disabledMetadata_sets_false:
  assumes "json_path [''apps'', s, ''enabled''] md = Some (JBool True)"
  shows "\<exists>md'. disabledMetadata s md = Some md'
              \<and> json_path [''apps'', s, ''enabled''] md' = Some (JBool False)"
proof -
  from assms obtain m where m: "md = JObj m"
    by (cases md) auto
  from assms m obtain v where v: "map_of m ''apps'' = Some v"
    by (cases "map_of m ''apps''") auto
  from assms m v obtain apps where apps: "v = JObj apps"
    by (cases v) auto
  from assms m v apps obtain a where a: "map_of apps s = Some a"
    by (cases "map_of apps s") auto
  from assms m v apps a obtain fields where fields: "a = JObj fields"
    by (cases a) auto
  show ?thesis
    by (simp add: disabledMetadata_def m v apps a fields)
qed

lemma eventTypeTask_table:
  assumes "json_path [''apps'', slug app, ''enabled''] (et_metadata x) = Some (JBool True)"
  shows "\<exists>md'. json_path [''apps'', slug app, ''enabled''] md' = Some (JBool False)
           \<and> eventType_table (fst (eventTypeTask env app md x w)) =
               map (\<lambda>e. if et_id e = et_id x then e\<lparr>et_metadata := md'\<rparr> else e) (eventType_table w)"
proof -
  from disabledMetadata_sets_false [OF assms] obtain md' where
    "disabledMetadata (slug app) (et_metadata x) = Some md'"
    "json_path [''apps'', slug app, ''enabled''] md' = Some (JBool False)" by blast
  then show ?thesis
    by (auto simp: eventTypeTask_def prisma_eventType_update_def)
qed

lemma eventType_tasks_table:
  assumes "\<forall>x \<in> set es. json_path [''apps'', slug app, ''enabled''] (et_metadata x) = Some (JBool True)"
  shows "list_all2
           (\<lambda>e e'. et_id e' = et_id e
                  \<and> (if et_id e \<in> et_id ` set es
                     then json_path [''apps'', slug app, ''enabled''] (et_metadata e') = Some (JBool False)
                     else e' = e))
           (eventType_table w)
           (eventType_table (fst (settle_all (map (eventTypeTask env app md) es) w)))"
  using assms
proof (induction es arbitrary: w)
  case Nil
  then show ?case by (simp add: list_all2_same)
next
  case (Cons x es)
  let ?p = "[''apps'', slug app, ''enabled'']"
  let ?w1 = "fst (eventTypeTask env app md x w)"
  from Cons.prems have x: "json_path ?p (et_metadata x) = Some (JBool True)" by simp
  from eventTypeTask_table [OF x, of env md w] obtain md' where
    md': "json_path ?p md' = Some (JBool False)"
    and t1: "eventType_table ?w1 =
               map (\<lambda>e. if et_id e = et_id x then e\<lparr>et_metadata := md'\<rparr> else e) (eventType_table w)"
    by blast
  have ih: "list_all2
           (\<lambda>e e'. et_id e' = et_id e
                  \<and> (if et_id e \<in> et_id ` set es
                     then json_path ?p (et_metadata e') = Some (JBool False)
                     else e' = e))
           (eventType_table ?w1)
           (eventType_table (fst (settle_all (map (eventTypeTask env app md) es) ?w1)))"
    using Cons.IH Cons.prems by simp
  have "list_all2
           (\<lambda>e e'. et_id e' = et_id e
                  \<and> (if et_id e \<in> et_id ` set (x # es)
                     then json_path ?p (et_metadata e') = Some (JBool False)
                     else e' = e))
           (eventType_table w)
           (eventType_table (fst (settle_all (map (eventTypeTask env app md) es) ?w1)))"
    using ih unfolding t1 list_all2_map1
    by (rule list_all2_mono) (auto simp: md' simp del: json_path.simps split: if_splits)
  then show ?case by (simp add: fst_settle_all_Cons del: settle_all.simps)
qed

lemma toggle_generic_world:
  assumes "role ctx = ''ADMIN''"
    and "in_enabled input"
    and "find (\<lambda>r. slug r = in_slug input) (app_table w) = Some r"
    and "\<not> list_ex (\<lambda>category. category = ''calendar'' \<or> category = ''video'') (categories r)"
  shows "snd (toggle env ctx input w) =
           fst (settle_all
                 (map (eventTypeTask env (r\<lparr>enabled := False\<rparr>)
                         (find (\<lambda>localApp. meta_slug localApp = in_slug input) (getLocalAppMetadata env)))
                    (prisma_eventType_findMany (in_slug input) w))
                 (w\<lparr>app_table := map (\<lambda>r. if slug r = in_slug input then r\<lparr>enabled := False\<rparr> else r)
                                    (app_table w)\<rparr>))"
proof -
  have s: "slug r = in_slug input"
    using assms(3) by (auto simp: find_Some_iff)
  show ?thesis
    using assms s by (simp add: toggle_def prisma_app_update_def Let_def prisma_eventType_findMany_def)
qed

text \<open>
  On this path every event type that marked the app enabled has the sub-flag false once
  the tasks have settled, and the outbox is what it was: each task stops at line 188.
\<close>

lemma toggle_generic_updates_rows_sends_nothing:
  assumes "role ctx = ''ADMIN''"
    and "in_enabled input"
    and "find (\<lambda>r. slug r = in_slug input) (app_table w) = Some r"
    and "\<not> list_ex (\<lambda>category. category = ''calendar'' \<or> category = ''video'') (categories r)"
  shows "list_all2
           (\<lambda>e e'. et_id e' = et_id e
                  \<and> (json_path [''apps'', in_slug input, ''enabled''] (et_metadata e) = Some (JBool True)
                       \<longrightarrow> json_path [''apps'', in_slug input, ''enabled''] (et_metadata e')
                             = Some (JBool False)))
           (eventType_table w) (eventType_table (snd (toggle env ctx input w)))"
    and "outbox (snd (toggle env ctx input w)) = outbox w"
proof -
  have s: "slug r = in_slug input"
    using assms(3) by (auto simp: find_Some_iff)
  let ?app = "r\<lparr>enabled := False\<rparr>"
  let ?md = "find (\<lambda>localApp. meta_slug localApp = in_slug input) (getLocalAppMetadata env)"
  let ?w1 = "w\<lparr>app_table := map (\<lambda>r. if slug r = in_slug input then r\<lparr>enabled := False\<rparr> else r)
                                    (app_table w)\<rparr>"
  let ?es = "prisma_eventType_findMany (in_slug input) w"
  note w' = toggle_generic_world [OF assms, of env]
  show "outbox (snd (toggle env ctx input w)) = outbox w"
    unfolding w' by simp
  have sel: "\<forall>x \<in> set ?es. json_path [''apps'', slug ?app, ''enabled''] (et_metadata x) = Some (JBool True)"
    by (simp add: prisma_eventType_findMany_def s)
  have tab: "list_all2
           (\<lambda>e e'. et_id e' = et_id e
                  \<and> (if et_id e \<in> et_id ` set ?es
                     then json_path [''apps'', slug ?app, ''enabled''] (et_metadata e') = Some (JBool False)
                     else e' = e))
           (eventType_table ?w1)
           (eventType_table (fst (settle_all (map (eventTypeTask env ?app ?md) ?es) ?w1)))"
    by (rule eventType_tasks_table [OF sel])
  have sl: "slug ?app = in_slug input" using s by simp
  have t1: "eventType_table ?w1 = eventType_table w" by simp
  from tab have "list_all2
           (\<lambda>e e'. et_id e' = et_id e
                  \<and> (if et_id e \<in> et_id ` set ?es
                     then json_path [''apps'', in_slug input, ''enabled''] (et_metadata e') = Some (JBool False)
                     else e' = e))
           (eventType_table w) (eventType_table (snd (toggle env ctx input w)))"
    unfolding w' sl t1 .
  then show "list_all2
           (\<lambda>e e'. et_id e' = et_id e
                  \<and> (json_path [''apps'', in_slug input, ''enabled''] (et_metadata e) = Some (JBool True)
                       \<longrightarrow> json_path [''apps'', in_slug input, ''enabled''] (et_metadata e')
                             = Some (JBool False)))
           (eventType_table w) (eventType_table (snd (toggle env ctx input w)))"
    by (rule list.rel_mono_strong)
      (auto simp: prisma_eventType_findMany_def simp del: json_path.simps split: if_splits)
qed

text \<open>
  C2 at a concrete installation. Stripe is a payment app, and one event type, with the
  user Bob attached, marks it enabled. Disabling Stripe as an admin returns \<open>false\<close> and
  writes the event type's metadata back with the sub-flag false, its other entries kept;
  but no notification is attempted, although the event type has a user.
\<close>

theorem toggle_generic_no_notification:
  "map et_users (prisma_eventType_findMany ''stripe'' ex_world) = [[bob]]
   \<and> fst (toggle ex_env admin_ctx \<lparr>in_slug = ''stripe'', in_enabled = True\<rparr> ex_world) = Inr False
   \<and> map et_metadata
       (eventType_table (snd (toggle ex_env admin_ctx \<lparr>in_slug = ''stripe'', in_enabled = True\<rparr> ex_world)))
       = [JObj [(''apps'', JObj [(''stripe'', JObj [(''enabled'', JBool False), (''price'', JNum 100)])])],
          JObj []]
   \<and> outbox (snd (toggle ex_env admin_ctx \<lparr>in_slug = ''stripe'', in_enabled = True\<rparr> ex_world)) = []"
  by (simp add: prisma_eventType_findMany_def toggle_def prisma_app_update_def eventTypeTask_def
      disabledMetadata_def prisma_eventType_update_def Let_def ex_world_def admin_ctx_def)


section \<open>apps.listLocal: the keys and the flag emitted\<close>

lemma listLocal_loop_eq:
  "listLocal_loop env variant dbApps apps acc =
     acc @ map (filteredApp env dbApps) (filter (\<lambda>app. meta_variant app = variant) apps)"
  by (induction apps arbitrary: acc) auto

lemma listLocal_admin:
  assumes "role ctx = ''ADMIN''"
  shows "listLocal env ctx variant w =
           Inr (map (filteredApp env
                      (prisma_app_findMany (if variant = ''conferencing'' then ''video'' else variant) w))
                  (filter (\<lambda>app. meta_variant app = variant) (getLocalAppMetadata env)))"
  using assms by (simp add: listLocal_def listLocal_loop_eq Let_def)

lemma filteredApp_slug [simp]: "fa_slug (filteredApp env dbApps app) = meta_slug app"
  by (simp add: filteredApp_def Let_def)

lemma filteredApp_keys:
  "fa_keys (filteredApp env dbApps app) =
     (case find (\<lambda>dbApp. slug dbApp = meta_slug app) dbApps of
        None \<Rightarrow> schema_key_names env app
      | Some d \<Rightarrow> if truthy (keys d) then keys d else schema_key_names env app)"
  by (simp add: filteredApp_def schema_key_names_def Let_def split: option.splits)

lemma filteredApp_enabled:
  "fa_enabled (filteredApp env dbApps app) =
     (case find (\<lambda>dbApp. slug dbApp = meta_slug app) dbApps of
        None \<Rightarrow> False | Some d \<Rightarrow> enabled d)"
  by (simp add: filteredApp_def Let_def split: option.splits)

lemma find_filter_Some:
  "find P (filter Q xs) = Some d \<Longrightarrow> d \<in> set xs \<and> P d"
  by (induction xs) (auto split: if_splits)

text \<open>
  C7, as the code has it. An admin call to \<open>listLocal\<close> emits one record for each bundled
  app of the requested variant, in catalogue order. The stored row of an app is looked up
  among the rows whose categories include the requested category (\<open>video\<close> for the variant
  \<open>conferencing\<close>). If it is found there and its keys are truthy, the record's \<open>keys\<close> are
  the stored keys verbatim; otherwise they are the names of the schema's keys, or \<open>null\<close>
  when no schema is found under the key derived from the app's type.
\<close>

theorem listLocal_keys:
  assumes "role ctx = ''ADMIN''"
  shows "\<exists>out. listLocal env ctx variant w = Inr out
       \<and> list_all2
           (\<lambda>app rec.
              fa_slug rec = meta_slug app
            \<and> fa_keys rec =
                (case find (\<lambda>dbApp. slug dbApp = meta_slug app)
                        (prisma_app_findMany
                           (if variant = ''conferencing'' then ''video'' else variant) w) of
                   None \<Rightarrow> schema_key_names env app
                 | Some d \<Rightarrow> if truthy (keys d) then keys d else schema_key_names env app))
           (filter (\<lambda>app. meta_variant app = variant) (getLocalAppMetadata env)) out"
  unfolding listLocal_admin [OF assms]
  by (simp add: list_all2_map2 list_all2_same filteredApp_keys)

theorem listLocal_keys_witness:
  "role admin_ctx = ''ADMIN''
   \<and> listLocal ex_env admin_ctx ''payment'' ex_world =
       Inr [\<lparr>fa_name = ''Stripe'', fa_slug = ''stripe'', fa_logo = ''stripe.svg'',
             fa_title = None, fa_type = ''stripe_payment'', fa_description = ''Payments'',
             fa_keys = JObj [(''public_key'', JStr ''pk_live'')], fa_enabled = True\<rparr>]
   \<and> stored_keys ''stripe'' ex_world = [JObj [(''public_key'', JStr ''pk_live'')]]
   \<and> listLocal ex_env admin_ctx ''conferencing'' ex_world =
       Inr [\<lparr>fa_name = ''Zoom Video'', fa_slug = ''zoom'', fa_logo = ''zoom.svg'',
             fa_title = Some ''Zoom'', fa_type = ''zoom_video'', fa_description = ''Video calls'',
             fa_keys = JArr [JStr ''client_id'', JStr ''client_secret''], fa_enabled = True\<rparr>]
   \<and> stored_keys ''zoom'' ex_world = [JNull]"
proof -
  have a: "role admin_ctx = ''ADMIN''" by (simp add: admin_ctx_def)
  have p: "listLocal ex_env admin_ctx ''payment'' ex_world =
       Inr [\<lparr>fa_name = ''Stripe'', fa_slug = ''stripe'', fa_logo = ''stripe.svg'',
             fa_title = None, fa_type = ''stripe_payment'', fa_description = ''Payments'',
             fa_keys = JObj [(''public_key'', JStr ''pk_live'')], fa_enabled = True\<rparr>]"
    by (simp add: listLocal_def prisma_app_findMany_def filteredApp_def Let_def
        ex_env_def ex_catalogue_def ex_world_def admin_ctx_def)
  have c: "listLocal ex_env admin_ctx ''conferencing'' ex_world =
       Inr [\<lparr>fa_name = ''Zoom Video'', fa_slug = ''zoom'', fa_logo = ''zoom.svg'',
             fa_title = Some ''Zoom'', fa_type = ''zoom_video'', fa_description = ''Video calls'',
             fa_keys = JArr [JStr ''client_id'', JStr ''client_secret''], fa_enabled = True\<rparr>]"
    by (simp add: listLocal_def prisma_app_findMany_def filteredApp_def Let_def
        ex_env_def ex_catalogue_def ex_world_def admin_ctx_def ex_schema_def)
  have s: "stored_keys ''stripe'' ex_world = [JObj [(''public_key'', JStr ''pk_live'')]]"
          "stored_keys ''zoom'' ex_world = [JNull]"
    by (simp_all add: stored_keys_def ex_world_def)
  from listLocal_keys [OF a, of ex_env "''payment''" ex_world] a p c s
  show ?thesis by simp
qed

text \<open>
  Stored keys are not always emitted: the row of Wipe my Cal holds keys but has the
  category \<open>calendar\<close>, while the bundled app has the variant \<open>other\<close>; the row is not among
  those fetched for \<open>other\<close>, and the emitted \<open>keys\<close> are \<open>null\<close>.
\<close>

theorem listLocal_stored_keys_counterexample:
  "stored_keys ''wipe-my-cal'' ex_world = [JObj [(''api_key'', JStr ''s3cret'')]]
   \<and> listLocal ex_env admin_ctx ''other'' ex_world =
       Inr [\<lparr>fa_name = ''Wipe my Cal'', fa_slug = ''wipe-my-cal'', fa_logo = ''wipe.svg'',
             fa_title = None, fa_type = ''wipemycal_other'',
             fa_description = ''Reschedule a day'', fa_keys = JNull, fa_enabled = False\<rparr>,
            \<lparr>fa_name = ''Giphy'', fa_slug = ''giphy'', fa_logo = ''giphy.svg'',
             fa_title = None, fa_type = ''giphy_other'',
             fa_description = ''GIFs'', fa_keys = JNull, fa_enabled = False\<rparr>]"
  by (simp add: stored_keys_def listLocal_def prisma_app_findMany_def filteredApp_def Let_def
        ex_env_def ex_catalogue_def ex_world_def admin_ctx_def)

text \<open>
  C10. In an admin call to \<open>listLocal\<close>, for each bundled app of the requested variant: if
  the app has no stored keys (every stored row with its slug has \<open>keys\<close> null) and no schema
  is found under the key derived from its type, the record's \<open>keys\<close> field is \<open>null\<close>; and
  if no row is stored for the app, the record's \<open>enabled\<close> flag is false.
\<close>

theorem listLocal_null_keys_and_disabled:
  assumes "role ctx = ''ADMIN''"
  shows "\<exists>out. listLocal env ctx variant w = Inr out
       \<and> list_all2
           (\<lambda>app rec.
              fa_slug rec = meta_slug app
            \<and> ((\<forall>r \<in> set (app_table w). slug r = meta_slug app \<longrightarrow> keys r = JNull)
                 \<and> appKeysSchemas env
                      (deriveAppDictKeyFromType env (meta_type app) (appKeysSchemas env)) = None
                 \<longrightarrow> fa_keys rec = JNull)
            \<and> ((\<forall>r \<in> set (app_table w). slug r \<noteq> meta_slug app) \<longrightarrow> fa_enabled rec = False))
           (filter (\<lambda>app. meta_variant app = variant) (getLocalAppMetadata env)) out"
  unfolding listLocal_admin [OF assms]
  by (auto simp: list_all2_map2 list_all2_same filteredApp_keys filteredApp_enabled
      schema_key_names_def prisma_app_findMany_def
      split: option.splits dest!: find_filter_Some)

theorem listLocal_null_keys_and_disabled_witness:
  "role admin_ctx = ''ADMIN''
   \<and> map slug (app_table ex_world) = [''zoom'', ''stripe'', ''wipe-my-cal'']
   \<and> appKeysSchemas ex_env
        (deriveAppDictKeyFromType ex_env ''giphy_other'' (appKeysSchemas ex_env)) = None
   \<and> listLocal ex_env admin_ctx ''other'' ex_world =
       Inr [\<lparr>fa_name = ''Wipe my Cal'', fa_slug = ''wipe-my-cal'', fa_logo = ''wipe.svg'',
             fa_title = None, fa_type = ''wipemycal_other'',
             fa_description = ''Reschedule a day'', fa_keys = JNull, fa_enabled = False\<rparr>,
            \<lparr>fa_name = ''Giphy'', fa_slug = ''giphy'', fa_logo = ''giphy.svg'',
             fa_title = None, fa_type = ''giphy_other'',
             fa_description = ''GIFs'', fa_keys = JNull, fa_enabled = False\<rparr>]"
proof -
  have a: "role admin_ctx = ''ADMIN''" by (simp add: admin_ctx_def)
  have b: "map slug (app_table ex_world) = [''zoom'', ''stripe'', ''wipe-my-cal'']"
    by (simp add: ex_world_def)
  have c: "appKeysSchemas ex_env
        (deriveAppDictKeyFromType ex_env ''giphy_other'' (appKeysSchemas ex_env)) = None"
    by (simp add: ex_env_def)
  from listLocal_null_keys_and_disabled [OF a, of ex_env "''other''" ex_world]
  obtain out where out: "listLocal ex_env admin_ctx ''other'' ex_world = Inr out" by blast
  have "listLocal ex_env admin_ctx ''other'' ex_world =
       Inr [\<lparr>fa_name = ''Wipe my Cal'', fa_slug = ''wipe-my-cal'', fa_logo = ''wipe.svg'',
             fa_title = None, fa_type = ''wipemycal_other'',
             fa_description = ''Reschedule a day'', fa_keys = JNull, fa_enabled = False\<rparr>,
            \<lparr>fa_name = ''Giphy'', fa_slug = ''giphy'', fa_logo = ''giphy.svg'',
             fa_title = None, fa_type = ''giphy_other'',
             fa_description = ''GIFs'', fa_keys = JNull, fa_enabled = False\<rparr>]"
    by (simp add: listLocal_def prisma_app_findMany_def filteredApp_def Let_def
        ex_env_def ex_catalogue_def ex_world_def admin_ctx_def)
  then show ?thesis using a b c out by simp
qed

end
